theory Spec2Isabelle
  imports Main "HOL-Library.Word"
begin

section \<open>Strings\<close>

text \<open>
  A JavaScript string is a sequence of UTF-16 code units. String literals of the source
  are written with \<open>str\<close> for their ASCII stretches and with explicit code units for
  the accented letters (all of them precomposed, in the basic plane), the double quote
  and the line feed.
\<close>

type_synonym jsstring = "16 word list"

definition str :: "string \<Rightarrow> jsstring" where
  "str = map (\<lambda>c. of_nat (of_char c))"

text \<open>
  \<open>String.prototype.trim\<close> removes the code units of WhiteSpace and LineTerminator
  (ECMA-262) from both ends.
\<close>

definition is_space :: "16 word \<Rightarrow> bool" where
  "is_space c \<longleftrightarrow>
     (0x09 \<le> c \<and> c \<le> 0x0D) \<or> c = 0x20 \<or> c = 0xA0 \<or> c = 0x1680 \<or>
     (0x2000 \<le> c \<and> c \<le> 0x200A) \<or> c = 0x2028 \<or> c = 0x2029 \<or> c = 0x202F \<or>
     c = 0x205F \<or> c = 0x3000 \<or> c = 0xFEFF"

definition trim :: "jsstring \<Rightarrow> jsstring" where
  "trim s = rev (dropWhile is_space (rev (dropWhile is_space s)))"

text \<open>\<open>Array.prototype.join\<close> on strings.\<close>

fun join :: "jsstring \<Rightarrow> jsstring list \<Rightarrow> jsstring" where
  "join sep [] = []"
| "join sep [x] = x"
| "join sep (x # y # ys) = x @ sep @ join sep (y # ys)"

text \<open>
  \<open>String.prototype.toUpperCase\<close> on its ASCII fragment: the letters a to z go to
  A to Z, every other code unit stays. The source applies it to speaker labels only,
  which are lower-case ASCII.
\<close>

definition toUpperCase :: "jsstring \<Rightarrow> jsstring" where
  "toUpperCase = map (\<lambda>c. if 0x61 \<le> c \<and> c \<le> 0x7A then c - 0x20 else c)"

text \<open>Template interpolation of a non-negative integer: its decimal digits.\<close>

fun digits :: "nat \<Rightarrow> jsstring" where
  "digits n = (if n < 10 then [of_nat (48 + n)] else digits (n div 10) @ [of_nat (48 + n mod 10)])"

declare digits.simps [simp del]

section \<open>Messages\<close>

text \<open>\<open>type ChatMsg = { speaker: "openai" | "llama"; content: string }\<close>\<close>

datatype speaker = openai | llama

fun speaker_label :: "speaker \<Rightarrow> jsstring" where
  "speaker_label openai = str ''openai''"
| "speaker_label llama = str ''llama''"

record ChatMsg =
  speaker :: speaker
  content :: jsstring

text \<open>A message of either model service: \<open>{ role, content }\<close>.\<close>

record role_msg =
  role :: jsstring
  rcontent :: jsstring

text \<open>
  The request body \<open>{ history, topic }\<close> as a handler reads it; a field may be absent.
  A thrown object is represented by its \<open>message\<close>, \<open>None\<close> when it has none
  (\<open>err?.message\<close>). A handler answers \<open>NextResponse.json\<close> of either \<open>{ error }\<close>
  with status 500 (\<open>Inl\<close>) or a \<open>ChatMsg\<close> with status 200 (\<open>Inr\<close>).
\<close>

record body =
  b_history :: "ChatMsg list option"
  b_topic :: "jsstring option"

type_synonym thrown = "jsstring option"

type_synonym turn_response = "jsstring + ChatMsg"

record env =
  OPENAI_API_KEY :: "jsstring option"
  OPENAI_MODEL :: "jsstring option"
  OLLAMA_BASE_URL :: "jsstring option"
  OLLAMA_MODEL :: "jsstring option"

definition nullish :: "'a option \<Rightarrow> 'a \<Rightarrow> 'a" where
  "nullish x d = (case x of None \<Rightarrow> d | Some v \<Rightarrow> v)"

definition labelled_line :: "ChatMsg \<Rightarrow> jsstring" where
  "labelled_line m = toUpperCase (speaker_label (speaker m)) @ str '': '' @ content m"

definition placeholder :: jsstring where
  "placeholder = str ''(sin respuesta)''"

text \<open>\<open>x.trim() || "(sin respuesta)"\<close>: the empty string is falsy.\<close>

definition trimmed_or_placeholder :: "jsstring \<Rightarrow> jsstring" where
  "trimmed_or_placeholder s = (if trim s = [] then placeholder else trim s)"

section \<open>Adapter A: the hosted-model turn (POST /api/openai-turn)\<close>

record openai_request =
  model :: jsstring
  input :: "role_msg list"

text \<open>
  \<open>client.responses.create\<close>, together with the construction of the client: it
  throws (transport failure, any non-success status, a missing key) or returns a
  response, of which the handler reads \<open>output_text\<close>.
\<close>

type_synonym responses_create = "openai_request \<Rightarrow> thrown + jsstring option"

definition transcript :: "ChatMsg list option \<Rightarrow> jsstring" where
  "transcript history =
     (case history of
        None \<Rightarrow> []
      | Some h \<Rightarrow> if length h \<noteq> 0 then join [0x0A] (map labelled_line h) else [])"

definition openai_system :: jsstring where
  "openai_system =
     str ''Eres un LLM participando en una conversaci'' @ [0xF3] @
     str ''n alternada con otro LLM. '' @
     str ''Responde en 2-4 frases siendo muy r'' @ [0xE1] @ str ''dical sobre el t'' @ [0xF3] @
     str ''pico que se pide. No hagas preguntas al usuario; habla al otro modelo.''"

definition openai_user :: "jsstring \<Rightarrow> jsstring option \<Rightarrow> jsstring" where
  "openai_user t topic =
     (if length t > 0
      then str ''Conversaci'' @ [0xF3] @ str ''n hasta ahora:'' @ [0x0A] @ t @ [0x0A, 0x0A] @
           str ''Ahora te toca hablar. Contin'' @ [0xFA] @ str ''a.''
      else str ''Inicia una conversaci'' @ [0xF3] @ str ''n con otro LLM sobre este tema: '' @
           [0x22] @ nullish topic (str ''tecnolog'' @ [0xED] @ str ''a'') @ [0x22] @ str ''.'')"

definition openai_build :: "env \<Rightarrow> body \<Rightarrow> openai_request" where
  "openai_build e b =
     \<lparr>model = nullish (OPENAI_MODEL e) (str ''gpt-4.1-mini''),
      input = [\<lparr>role = str ''system'', rcontent = openai_system\<rparr>,
               \<lparr>role = str ''user'',
                rcontent = openai_user (transcript (b_history b)) (b_topic b)\<rparr>]\<rparr>"

text \<open>
  The handler. \<open>req\<close> is the outcome of \<open>await req.json()\<close> with the destructuring:
  \<open>Inl\<close> when that throws.
\<close>

definition POST_openai :: "env \<Rightarrow> responses_create \<Rightarrow> thrown + body \<Rightarrow> turn_response" where
  "POST_openai e create req =
     (case req of
        Inl err \<Rightarrow> Inl (nullish err (str ''OpenAI error''))
      | Inr b \<Rightarrow>
          (case create (openai_build e b) of
             Inl err \<Rightarrow> Inl (nullish err (str ''OpenAI error''))
           | Inr output_text \<Rightarrow>
               Inr \<lparr>speaker = openai,
                    content = (case output_text of
                                 None \<Rightarrow> placeholder
                               | Some t \<Rightarrow> trimmed_or_placeholder t)\<rparr>))"

section \<open>Adapter B: the local-model turn (POST /api/llama-turn)\<close>

record ollama_request =
  url :: jsstring
  ollama_model :: jsstring
  messages :: "role_msg list"
  stream :: bool

text \<open>
  What the call of the local service comes to: something in the \<open>try\<close> block throws
  (the \<open>fetch\<close>, reading the response, a reply that is not text), the response is not
  \<open>ok\<close> (its status and text), or it is \<open>ok\<close> and \<open>data?.message?.content\<close> is read.
\<close>

datatype ollama_outcome =
  Throws thrown
| Not_ok nat jsstring
| Ok_data "jsstring option"

type_synonym ollama_chat = "ollama_request \<Rightarrow> ollama_outcome"

definition ollama_system :: jsstring where
  "ollama_system =
     str ''Eres un LLM hablando con otro LLM, ten en cuenta que eres muy pasota y eres muy feliz en la vida sin darle mucha importancia a las cosas. Responde en 2-4 frases. '' @
     str ''No hables como si fueras un humano.''"

definition ollama_messages :: "ChatMsg list option \<Rightarrow> role_msg list" where
  "ollama_messages history =
     [\<lparr>role = str ''system'', rcontent = ollama_system\<rparr>] @
     map (\<lambda>m. \<lparr>role = str ''assistant'', rcontent = labelled_line m\<rparr>) (nullish history []) @
     [\<lparr>role = str ''user'',
       rcontent = str ''Ahora te toca responder. Contin'' @ [0xFA] @ str ''a la conversaci'' @
                  [0xF3] @ str ''n.''\<rparr>]"

definition ollama_build :: "env \<Rightarrow> body \<Rightarrow> ollama_request" where
  "ollama_build e b =
     \<lparr>url = nullish (OLLAMA_BASE_URL e) (str ''http://localhost:11434'') @ str ''/api/chat'',
      ollama_model = nullish (OLLAMA_MODEL e) (str ''llama3''),
      messages = ollama_messages (b_history b),
      stream = False\<rparr>"

definition POST_llama :: "env \<Rightarrow> ollama_chat \<Rightarrow> thrown + body \<Rightarrow> turn_response" where
  "POST_llama e chat req =
     (case req of
        Inl err \<Rightarrow> Inl (nullish err (str ''Ollama error''))
      | Inr b \<Rightarrow>
          (case chat (ollama_build e b) of
             Throws err \<Rightarrow> Inl (nullish err (str ''Ollama error''))
           | Not_ok status txt \<Rightarrow> Inl (str ''Ollama error '' @ digits status @ str '': '' @ txt)
           | Ok_data c \<Rightarrow>
               Inr \<lparr>speaker = llama, content = trimmed_or_placeholder (nullish c [])\<rparr>))"

section \<open>JSON text of strings\<close>

text \<open>
  \<open>JSON.stringify\<close> on a string (QuoteJSONString of ECMA-262): the string between
  double quotes, where the double quote, the backslash and the control characters are
  escaped, a surrogate that is not half of a pair is written as a \<open>\u\<close> escape, and
  every other code unit stands for itself.
\<close>

definition is_lead :: "16 word \<Rightarrow> bool" where
  "is_lead c \<longleftrightarrow> 0xD800 \<le> c \<and> c \<le> 0xDBFF"

definition is_trail :: "16 word \<Rightarrow> bool" where
  "is_trail c \<longleftrightarrow> 0xDC00 \<le> c \<and> c \<le> 0xDFFF"

definition hexdigit :: "nat \<Rightarrow> 16 word" where
  "hexdigit d = (if d < 10 then of_nat (48 + d) else of_nat (87 + d))"

definition unicode_escape :: "16 word \<Rightarrow> jsstring" where
  "unicode_escape c =
     [0x5C, 0x75, hexdigit (unat c div 4096 mod 16), hexdigit (unat c div 256 mod 16),
      hexdigit (unat c div 16 mod 16), hexdigit (unat c mod 16)]"

definition escape_unit :: "16 word \<Rightarrow> jsstring" where
  "escape_unit c =
     (if c = 0x08 then [0x5C, 0x62]
      else if c = 0x09 then [0x5C, 0x74]
      else if c = 0x0A then [0x5C, 0x6E]
      else if c = 0x0C then [0x5C, 0x66]
      else if c = 0x0D then [0x5C, 0x72]
      else if c = 0x22 then [0x5C, 0x22]
      else if c = 0x5C then [0x5C, 0x5C]
      else if c < 0x20 \<or> is_lead c \<or> is_trail c then unicode_escape c
      else [c])"

fun quote_units :: "jsstring \<Rightarrow> jsstring" where
  "quote_units [] = []"
| "quote_units [c] = escape_unit c"
| "quote_units (c # d # ds) =
     (if is_lead c \<and> is_trail d then c # d # quote_units ds
      else escape_unit c @ quote_units (d # ds))"

definition json_quote :: "jsstring \<Rightarrow> jsstring" where
  "json_quote s = [0x22] @ quote_units s @ [0x22]"

section \<open>The turn controller (the page component)\<close>

text \<open>
  The state variables of the component, and the calls of \<open>nextTurn\<close> that are waiting
  for their \<open>fetch\<close>. A state variable is a constant of each render: a handler reads
  what the render it was created in holds, also after it has called a setter, and the
  setters of one handler (or of one continuation after an \<open>await\<close>) take effect
  together in the next render; a setter given a function applies it to the latest
  state. So \<open>nextTurn\<close> reads \<open>turn\<close>, \<open>history\<close> and \<open>topic\<close> of the render whose
  closure it is, and a waiting call keeps what it sent.
\<close>

record call =
  endpoint :: speaker
  sent_history :: "ChatMsg list"
  sent_topic :: jsstring

record session =
  topic :: jsstring
  history :: "ChatMsg list"
  turn :: speaker
  loading :: bool
  error :: "jsstring option"
  isRunning :: bool
  roundCount :: nat
  showExport :: bool
  inflight :: "call list"

definition maxRounds :: nat where
  "maxRounds = 10"

definition initial :: session where
  "initial =
     \<lparr>topic = str ''Impacto de la IA en la educaci'' @ [0xF3] @ str ''n'', history = [],
      turn = openai, loading = False, error = None, isRunning = False, roundCount = 0,
      showExport = False, inflight = []\<rparr>"

fun other :: "speaker \<Rightarrow> speaker" where
  "other openai = llama"
| "other llama = openai"

text \<open>
  \<open>nextTurn\<close> up to its \<open>await fetch\<close>. The first argument is the render the closure
  belongs to, the second the state the updates are applied to.
\<close>

definition nextTurn_call :: "session \<Rightarrow> call" where
  "nextTurn_call r = \<lparr>endpoint = turn r, sent_history = history r, sent_topic = topic r\<rparr>"

definition nextTurn_begin :: "session \<Rightarrow> session \<Rightarrow> session" where
  "nextTurn_begin r s =
     s\<lparr>loading := True, error := None, inflight := inflight s @ [nextTurn_call r]\<rparr>"

text \<open>The rest of the \<open>try\<close> block, with \<open>finally\<close>.\<close>

definition nextTurn_resolved :: "ChatMsg \<Rightarrow> session \<Rightarrow> session" where
  "nextTurn_resolved msg s =
     s\<lparr>history := history s @ [msg], turn := other (turn s),
       roundCount := roundCount s + 1, loading := False\<rparr>"

text \<open>The \<open>catch\<close> block, with \<open>finally\<close>; \<open>history\<close> there is the closure's.\<close>

definition nextTurn_caught :: "call \<Rightarrow> thrown \<Rightarrow> session \<Rightarrow> session" where
  "nextTurn_caught c e s =
     s\<lparr>error := Some (nullish e (str ''Error desconocido'')), isRunning := False,
       showExport := (if length (sent_history c) > 0 then True else showExport s),
       loading := False\<rparr>"

text \<open>\<open>await res.text()\<close> of a handler's \<open>{ error }\<close> answer.\<close>

definition res_text :: "jsstring \<Rightarrow> jsstring" where
  "res_text msg = str ''{'' @ json_quote (str ''error'') @ str '':'' @ json_quote msg @ str ''}''"

text \<open>
  What follows the \<open>fetch\<close>: it rejected (\<open>Inl\<close>), or a handler answered; an answer
  that is not \<open>ok\<close> is thrown with its text.
\<close>

definition nextTurn_settle :: "call \<Rightarrow> thrown + turn_response \<Rightarrow> session \<Rightarrow> session" where
  "nextTurn_settle c outcome s =
     (case outcome of
        Inl e \<Rightarrow> nextTurn_caught c e s
      | Inr (Inl msg) \<Rightarrow> nextTurn_caught c (Some (res_text msg)) s
      | Inr (Inr msg) \<Rightarrow> nextTurn_resolved msg s)"

text \<open>The handler behind the endpoint of a call, on the body the call sent.\<close>

definition sent_body :: "call \<Rightarrow> body" where
  "sent_body c = \<lparr>b_history = Some (sent_history c), b_topic = Some (sent_topic c)\<rparr>"

definition route :: "env \<Rightarrow> responses_create \<Rightarrow> ollama_chat \<Rightarrow> call \<Rightarrow> turn_response" where
  "route e create chat c =
     (case endpoint c of
        openai \<Rightarrow> POST_openai e create (Inr (sent_body c))
      | llama \<Rightarrow> POST_llama e chat (Inr (sent_body c)))"

definition reset :: "session \<Rightarrow> session" where
  "reset s =
     s\<lparr>history := [], turn := openai, error := None, roundCount := 0, isRunning := False,
       showExport := False\<rparr>"

definition stopDebate :: "session \<Rightarrow> session" where
  "stopDebate s =
     s\<lparr>isRunning := False, showExport := (if length (history s) > 0 then True else showExport s)\<rparr>"

definition startConversation :: "session \<Rightarrow> session" where
  "startConversation s =
     (let s1 = (if length (history s) > 0 then reset s else s);
          s2 = s1\<lparr>isRunning := True, showExport := False\<rparr>
      in nextTurn_begin s s2)"

text \<open>
  The effects that write state, run after a render: the export flag of a finished
  debate, and the second branch of the auto-continuation. Its first branch arms the
  timer, which is the event \<open>Timer\<close> below: the timer is cleared when a dependency
  of the effect changes, so when it fires the values its closure holds are the
  current ones.
\<close>

definition effects :: "session \<Rightarrow> session" where
  "effects s =
     (let s1 = (if roundCount s \<ge> maxRounds \<and> length (history s) > 0
                then s\<lparr>showExport := True\<rparr> else s)
      in if isRunning s1 \<and> roundCount s1 \<ge> maxRounds
         then s1\<lparr>isRunning := False, showExport := True\<rparr> else s1)"

text \<open>
  What can happen to the component: the user types a topic, clicks a button that is
  rendered and enabled, presses Enter in the topic field; the timer fires; the
  \<open>fetch\<close> of a waiting call rejects, or its handler answers, given what the model
  services do.
\<close>

datatype event =
  Type_topic jsstring
| Click_start
| Press_enter
| Click_stop
| Click_reset
| Timer
| Reject nat thrown
| Respond nat responses_create ollama_chat

definition without :: "nat \<Rightarrow> 'a list \<Rightarrow> 'a list" where
  "without i xs = take i xs @ drop (Suc i) xs"

fun handle :: "env \<Rightarrow> event \<Rightarrow> session \<Rightarrow> session option" where
  "handle e (Type_topic t) s = Some (s\<lparr>topic := t\<rparr>)"
| "handle e Click_start s =
     (if loading s \<or> trim (topic s) = [] then None else Some (startConversation s))"
| "handle e Press_enter s =
     (if trim (topic s) = [] then None else Some (startConversation s))"
| "handle e Click_stop s = (if isRunning s then Some (stopDebate s) else None)"
| "handle e Click_reset s = (if isRunning s then None else Some (reset s))"
| "handle e Timer s =
     (if isRunning s \<and> \<not> loading s \<and> roundCount s < maxRounds
      then Some (nextTurn_begin s s) else None)"
| "handle e (Reject i err) s =
     (if i < length (inflight s)
      then Some (nextTurn_settle (inflight s ! i) (Inl err) (s\<lparr>inflight := without i (inflight s)\<rparr>))
      else None)"
| "handle e (Respond i create chat) s =
     (if i < length (inflight s)
      then Some (nextTurn_settle (inflight s ! i) (Inr (route e create chat (inflight s ! i)))
                   (s\<lparr>inflight := without i (inflight s)\<rparr>))
      else None)"

definition step :: "env \<Rightarrow> event \<Rightarrow> session \<Rightarrow> session option" where
  "step e ev s = map_option effects (handle e ev s)"

fun run :: "env \<Rightarrow> event list \<Rightarrow> session \<Rightarrow> session option" where
  "run e [] s = Some s"
| "run e (ev # evs) s = (case step e ev s of None \<Rightarrow> None | Some s' \<Rightarrow> run e evs s')"

inductive reachable :: "env \<Rightarrow> session \<Rightarrow> bool" for e :: env where
  at_start: "reachable e initial"
| after_step: "reachable e s \<Longrightarrow> step e ev s = Some s' \<Longrightarrow> reachable e s'"

section \<open>The structured export and its reading back\<close>

text \<open>
  The values that \<open>JSON.stringify\<close> writes here and \<open>JSON.parse\<close> reads: literals,
  strings, arrays, and objects as the list of their properties in order. Numbers do not
  occur in an export and are left out: the reading of a text with a number token
  answers \<open>None\<close>.
\<close>

datatype json_value =
  JNull
| JBool bool
| JString jsstring
| JArray "json_value list"
| JObject "(jsstring \<times> json_value) list"

text \<open>
  \<open>JSON.stringify(value, null, 2)\<close> (SerializeJSONProperty of ECMA-262 with a gap of
  two spaces): \<open>ind\<close> is the current indentation. A non-empty array or object puts each
  entry on a line of its own, one gap deeper, with \<open>": "\<close> after a property name.
\<close>

definition gap :: jsstring where
  "gap = str ''  ''"

fun stringify :: "jsstring \<Rightarrow> json_value \<Rightarrow> jsstring"
  and elements :: "jsstring \<Rightarrow> json_value list \<Rightarrow> jsstring list"
  and members :: "jsstring \<Rightarrow> (jsstring \<times> json_value) list \<Rightarrow> jsstring list" where
  "stringify ind JNull = str ''null''"
| "stringify ind (JBool b) = (if b then str ''true'' else str ''false'')"
| "stringify ind (JString s) = json_quote s"
| "stringify ind (JArray vs) =
     (if vs = [] then str ''[]''
      else str ''['' @ [0x0A] @ (ind @ gap) @
           join (str '','' @ [0x0A] @ (ind @ gap)) (elements (ind @ gap) vs) @
           [0x0A] @ ind @ str '']'')"
| "stringify ind (JObject ms) =
     (if ms = [] then str ''{}''
      else str ''{'' @ [0x0A] @ (ind @ gap) @
           join (str '','' @ [0x0A] @ (ind @ gap)) (members (ind @ gap) ms) @
           [0x0A] @ ind @ str ''}'')"
| "elements ind [] = []"
| "elements ind (v # vs) = stringify ind v # elements ind vs"
| "members ind [] = []"
| "members ind (kv # ms) =
     (json_quote (fst kv) @ str '': '' @ stringify ind (snd kv)) # members ind ms"

text \<open>
  The value \<open>{ topic, history }\<close> that \<open>exportConversation("json")\<close> hands to
  \<open>JSON.stringify\<close>. A message has its properties in the order the handlers write them.
\<close>

definition msg_value :: "ChatMsg \<Rightarrow> json_value" where
  "msg_value m =
     JObject [(str ''speaker'', JString (speaker_label (speaker m))),
              (str ''content'', JString (content m))]"

definition snapshot :: "jsstring \<Rightarrow> ChatMsg list \<Rightarrow> json_value" where
  "snapshot t h = JObject [(str ''topic'', JString t), (str ''history'', JArray (map msg_value h))]"

text \<open>
  The text that \<open>exportConversation\<close> puts into the file it offers for download (the
  file name and the download itself are left out).
\<close>

datatype format = Txt | Json

definition exportConversation :: "format \<Rightarrow> session \<Rightarrow> jsstring" where
  "exportConversation fmt s =
     (case fmt of
        Txt \<Rightarrow>
          str ''Tema: '' @ topic s @ [0x0A, 0x0A] @
          join [0x0A, 0x0A]
            (map (\<lambda>(i, m). digits (i + 1) @ str ''. ['' @ toUpperCase (speaker_label (speaker m)) @
                            str '']: '' @ content m)
               (enumerate 0 (history s)))
      | Json \<Rightarrow> stringify [] (snapshot (topic s) (history s)))"

text \<open>
  \<open>JSON.parse\<close>, by recursive descent along the JSON grammar. A string ends at the
  closing double quote; a backslash starts an escape; a raw control character is an
  error. The descent takes fuel, one unit for each nested call, and \<open>JSON_parse\<close>
  gives it the length of the text; \<open>None\<close> is the \<open>SyntaxError\<close>.
\<close>

definition hexval :: "16 word \<Rightarrow> nat option" where
  "hexval c =
     (if 0x30 \<le> c \<and> c \<le> 0x39 then Some (unat c - 48)
      else if 0x61 \<le> c \<and> c \<le> 0x66 then Some (unat c - 87)
      else if 0x41 \<le> c \<and> c \<le> 0x46 then Some (unat c - 55)
      else None)"

definition hex4 :: "16 word \<Rightarrow> 16 word \<Rightarrow> 16 word \<Rightarrow> 16 word \<Rightarrow> 16 word option" where
  "hex4 a b c d =
     (case (hexval a, hexval b, hexval c, hexval d) of
        (Some p, Some q, Some r, Some s) \<Rightarrow> Some (of_nat (4096 * p + 256 * q + 16 * r + s))
      | _ \<Rightarrow> None)"

definition unescape :: "16 word \<Rightarrow> 16 word option" where
  "unescape d =
     (if d = 0x22 then Some 0x22
      else if d = 0x5C then Some 0x5C
      else if d = 0x2F then Some 0x2F
      else if d = 0x62 then Some 0x08
      else if d = 0x66 then Some 0x0C
      else if d = 0x6E then Some 0x0A
      else if d = 0x72 then Some 0x0D
      else if d = 0x74 then Some 0x09
      else None)"

definition cons_fst :: "'a \<Rightarrow> ('a list \<times> 'b) option \<Rightarrow> ('a list \<times> 'b) option" where
  "cons_fst x r = (case r of None \<Rightarrow> None | Some (xs, rest) \<Rightarrow> Some (x # xs, rest))"

fun parse_chars :: "jsstring \<Rightarrow> (jsstring \<times> jsstring) option" where
  "parse_chars [] = None"
| "parse_chars (c # cs) =
     (if c = 0x22 then Some ([], cs)
      else if c = 0x5C then
        (case cs of
           [] \<Rightarrow> None
         | d # ds \<Rightarrow>
             if d = 0x75 then
               (case ds of
                  h1 # h2 # h3 # h4 # r \<Rightarrow>
                    (case hex4 h1 h2 h3 h4 of
                       None \<Rightarrow> None
                     | Some u \<Rightarrow> cons_fst u (parse_chars r))
                | _ \<Rightarrow> None)
             else
               (case unescape d of
                  None \<Rightarrow> None
                | Some u \<Rightarrow> cons_fst u (parse_chars ds)))
      else if c < 0x20 then None
      else cons_fst c (parse_chars cs))"

definition is_json_ws :: "16 word \<Rightarrow> bool" where
  "is_json_ws c \<longleftrightarrow> c = 0x20 \<or> c = 0x09 \<or> c = 0x0A \<or> c = 0x0D"

definition skip_ws :: "jsstring \<Rightarrow> jsstring" where
  "skip_ws = dropWhile is_json_ws"

fun strip_prefix :: "jsstring \<Rightarrow> jsstring \<Rightarrow> jsstring option" where
  "strip_prefix [] cs = Some cs"
| "strip_prefix (p # ps) [] = None"
| "strip_prefix (p # ps) (c # cs) = (if p = c then strip_prefix ps cs else None)"

fun parse_value :: "nat \<Rightarrow> jsstring \<Rightarrow> (json_value \<times> jsstring) option"
  and parse_elements :: "nat \<Rightarrow> jsstring \<Rightarrow> (json_value list \<times> jsstring) option"
  and parse_members :: "nat \<Rightarrow> jsstring \<Rightarrow> ((jsstring \<times> json_value) list \<times> jsstring) option" where
  "parse_value 0 cs = None"
| "parse_value (Suc n) cs =
     (case skip_ws cs of
        [] \<Rightarrow> None
      | c # r \<Rightarrow>
          if c = 0x22 then
            (case parse_chars r of None \<Rightarrow> None | Some (s, r') \<Rightarrow> Some (JString s, r'))
          else if c = 0x5B then
            (case skip_ws r of
               [] \<Rightarrow> None
             | d # r' \<Rightarrow>
                 if d = 0x5D then Some (JArray [], r')
                 else (case parse_elements n r of
                         None \<Rightarrow> None
                       | Some (vs, r'') \<Rightarrow> Some (JArray vs, r'')))
          else if c = 0x7B then
            (case skip_ws r of
               [] \<Rightarrow> None
             | d # r' \<Rightarrow>
                 if d = 0x7D then Some (JObject [], r')
                 else (case parse_members n r of
                         None \<Rightarrow> None
                       | Some (ms, r'') \<Rightarrow> Some (JObject ms, r'')))
          else
            (case strip_prefix (str ''null'') (c # r) of
               Some r' \<Rightarrow> Some (JNull, r')
             | None \<Rightarrow>
                 (case strip_prefix (str ''true'') (c # r) of
                    Some r' \<Rightarrow> Some (JBool True, r')
                  | None \<Rightarrow>
                      (case strip_prefix (str ''false'') (c # r) of
                         Some r' \<Rightarrow> Some (JBool False, r')
                       | None \<Rightarrow> None))))"
| "parse_elements 0 cs = None"
| "parse_elements (Suc n) cs =
     (case parse_value n cs of
        None \<Rightarrow> None
      | Some (v, r) \<Rightarrow>
          (case skip_ws r of
             [] \<Rightarrow> None
           | c # r' \<Rightarrow>
               if c = 0x2C then cons_fst v (parse_elements n r')
               else if c = 0x5D then Some ([v], r')
               else None))"
| "parse_members 0 cs = None"
| "parse_members (Suc n) cs =
     (case skip_ws cs of
        [] \<Rightarrow> None
      | q # r \<Rightarrow>
          if q = 0x22 then
            (case parse_chars r of
               None \<Rightarrow> None
             | Some (k, r1) \<Rightarrow>
                 (case skip_ws r1 of
                    [] \<Rightarrow> None
                  | c # r2 \<Rightarrow>
                      if c = 0x3A then
                        (case parse_value n r2 of
                           None \<Rightarrow> None
                         | Some (v, r3) \<Rightarrow>
                             (case skip_ws r3 of
                                [] \<Rightarrow> None
                              | d # r4 \<Rightarrow>
                                  if d = 0x2C then cons_fst (k, v) (parse_members n r4)
                                  else if d = 0x7D then Some ([(k, v)], r4)
                                  else None))
                      else None))
          else None)"

definition JSON_parse :: "jsstring \<Rightarrow> json_value option" where
  "JSON_parse txt =
     (case parse_value (length txt) txt of
        None \<Rightarrow> None
      | Some (v, r) \<Rightarrow> if skip_ws r = [] then Some v else None)"

text \<open>Sample surroundings: no variable of the environment set, services that answer.\<close>

definition env0 :: env where
  "env0 = \<lparr>OPENAI_API_KEY = None, OPENAI_MODEL = None, OLLAMA_BASE_URL = None,
            OLLAMA_MODEL = None\<rparr>"

definition answers :: event where
  "answers = Respond 0 (\<lambda>_. Inr (Some (str ''a''))) (\<lambda>_. Ok_data (Some (str ''b'')))"

section \<open>Properties of the adapters\<close>

lemma upper_labels:
  "toUpperCase (speaker_label openai) = str ''OPENAI''"
  "toUpperCase (speaker_label llama) = str ''LLAMA''"
  by (simp_all add: toUpperCase_def str_def)

text \<open>
  C5. With an empty history and a topic \<open>X\<close>, the one user-role message of the request
  that Adapter A builds is the opening prompt, and it contains \<open>X\<close> verbatim: it is a
  fixed text ending in a double quote, then \<open>X\<close>, then a double quote and a full stop.
\<close>

theorem opening_prompt_contains_topic:
  "map rcontent (filter (\<lambda>m. role m = str ''user'')
     (input (openai_build e \<lparr>b_history = Some [], b_topic = Some X\<rparr>))) =
   [(str ''Inicia una conversaci'' @ [0xF3] @ str ''n con otro LLM sobre este tema: '' @ [0x22])
    @ X @ ([0x22] @ str ''.'')]"
  by (simp add: openai_build_def openai_user_def transcript_def nullish_def str_def)

lemma labelled_line_cases:
  "labelled_line m =
     (case speaker m of openai \<Rightarrow> str ''OPENAI'' | llama \<Rightarrow> str ''LLAMA'') @ str '': '' @ content m"
  by (cases "speaker m") (simp_all add: labelled_line_def toUpperCase_def str_def)

text \<open>
  C6. The messages of Adapter B's request with the role of the history wrapper are, in
  the order of the history, one per history message: the speaker label in upper case
  (\<open>OPENAI\<close> or \<open>LLAMA\<close>), a colon and a space, then the content of the message. This
  holds for every history, the non-empty ones among them.
\<close>

theorem ollama_messages_follow_history:
  "map rcontent (filter (\<lambda>m. role m = str ''assistant'')
     (messages (ollama_build e \<lparr>b_history = Some h, b_topic = t\<rparr>))) =
   map (\<lambda>m. (case speaker m of openai \<Rightarrow> str ''OPENAI'' | llama \<Rightarrow> str ''LLAMA'') @
             str '': '' @ content m) h"
proof -
  have "str ''system'' \<noteq> str ''assistant''" and "str ''user'' \<noteq> str ''assistant''"
    by (simp_all add: str_def)
  then show ?thesis
    by (simp add: ollama_build_def ollama_messages_def nullish_def filter_map comp_def
        labelled_line_cases)
qed

text \<open>
  C7. When the model service returns a reply text, either adapter answers with a message
  (not an error) of its own speaker whose content is the trimmed reply, or the
  placeholder \<open>(sin respuesta)\<close>, which is not empty, when the trimmed reply is empty.
\<close>

theorem reply_trimmed_or_placeholder:
  assumes "create (openai_build e b) = Inr (Some t)"
    and "chat (ollama_build e b') = Ok_data (Some t')"
  shows "POST_openai e create (Inr b) =
           Inr \<lparr>speaker = openai,
                content = (if trim t = [] then str ''(sin respuesta)'' else trim t)\<rparr> \<and>
         POST_llama e chat (Inr b') =
           Inr \<lparr>speaker = llama,
                content = (if trim t' = [] then str ''(sin respuesta)'' else trim t')\<rparr> \<and>
         str ''(sin respuesta)'' \<noteq> []"
  using assms
  by (simp add: POST_openai_def POST_llama_def trimmed_or_placeholder_def placeholder_def
      nullish_def str_def)

theorem reply_trimmed_or_placeholder_witness:
  "POST_openai env0 (\<lambda>_. Inr (Some (str '' hola ''))) (Inr \<lparr>b_history = None, b_topic = None\<rparr>) =
     Inr \<lparr>speaker = openai, content = str ''hola''\<rparr> \<and>
   POST_llama env0 (\<lambda>_. Ok_data (Some (str ''  ''))) (Inr \<lparr>b_history = None, b_topic = None\<rparr>) =
     Inr \<lparr>speaker = llama, content = str ''(sin respuesta)''\<rparr>"
  using reply_trimmed_or_placeholder
    [of "\<lambda>_. Inr (Some (str '' hola ''))" env0 "\<lparr>b_history = None, b_topic = None\<rparr>" "str '' hola ''"
        "\<lambda>_. Ok_data (Some (str ''  ''))" "\<lparr>b_history = None, b_topic = None\<rparr>" "str ''  ''"]
  by (simp add: trim_def is_space_def str_def)

text \<open>
  C8. Adapter B does not look at the topic: two request bodies with the same history
  give the same outbound request and, the local service being the same, the same answer.
\<close>

theorem ollama_ignores_topic:
  "b_history b1 = b_history b2 \<Longrightarrow>
   ollama_build e b1 = ollama_build e b2 \<and>
   POST_llama e chat (Inr b1) = POST_llama e chat (Inr b2)"
  by (simp add: ollama_build_def POST_llama_def)

theorem ollama_ignores_topic_witness:
  "ollama_build env0 \<lparr>b_history = Some [], b_topic = Some (str ''x'')\<rparr> =
     ollama_build env0 \<lparr>b_history = Some [], b_topic = Some (str ''y'')\<rparr> \<and>
   POST_llama env0 (\<lambda>_. Ok_data None) (Inr \<lparr>b_history = Some [], b_topic = Some (str ''x'')\<rparr>) =
     POST_llama env0 (\<lambda>_. Ok_data None) (Inr \<lparr>b_history = Some [], b_topic = Some (str ''y'')\<rparr>)"
  using ollama_ignores_topic
    [of "\<lparr>b_history = Some [], b_topic = Some (str ''x'')\<rparr>"
        "\<lparr>b_history = Some [], b_topic = Some (str ''y'')\<rparr>" env0 "\<lambda>_. Ok_data None"]
  by simp

section \<open>Properties of the turn controller\<close>

lemma run_reachable:
  "reachable e s \<Longrightarrow> run e evs s = Some s' \<Longrightarrow> reachable e s'"
proof (induction evs arbitrary: s)
  case Nil
  then show ?case by simp
next
  case (Cons ev evs)
  from Cons.prems(2) obtain s1 where s1: "step e ev s = Some s1" and rest: "run e evs s1 = Some s'"
    by (auto split: option.splits)
  from Cons.prems(1) s1 have "reachable e s1" by (rule reachable.after_step)
  then show ?case using rest by (rule Cons.IH)
qed

text \<open>
  After every step the auto-continuation effect has run: a debate that has reached
  \<open>maxRounds\<close> is not running.
\<close>

lemma effects_stops_at_maxRounds:
  "\<not> (isRunning (effects s) \<and> maxRounds \<le> roundCount (effects s))"
  by (simp add: effects_def Let_def)

lemma finished_not_running:
  "reachable e s \<Longrightarrow> \<not> (isRunning s \<and> maxRounds \<le> roundCount s)"
proof (induction rule: reachable.induct)
  case at_start
  show ?case by (simp add: initial_def)
next
  case (after_step s ev s')
  from after_step.hyps(2) obtain s1 where "s' = effects s1"
    by (auto simp: step_def)
  then show ?case by (simp only: effects_stops_at_maxRounds not_False_eq_True)
qed

text \<open>
  C9. \<open>reset\<close> leaves an empty history, a round count of 0, the turn with the hosted
  model, the debate not running and no error, whatever the state was.
\<close>

theorem reset_clears:
  "history (reset s) = [] \<and> roundCount (reset s) = 0 \<and> turn (reset s) = openai \<and>
   \<not> isRunning (reset s) \<and> error (reset s) = None"
  by (simp add: reset_def)

text \<open>
  C3. A waiting turn whose model service fails (the hosted client throws, as it does on
  a non-success status; the local service throws or answers with a status that is not
  ok) gets an error answer from its handler, and the controller then keeps the history
  as it is, records the text of that answer as the error and stops running. The same
  holds when the \<open>fetch\<close> of the turn itself rejects.
\<close>

theorem failed_turn_keeps_history:
  assumes "i < length (inflight s)"
    and "case endpoint (inflight s ! i) of
           openai \<Rightarrow> (\<exists>err. create (openai_build e (sent_body (inflight s ! i))) = Inl err)
         | llama \<Rightarrow>
             (\<exists>err. chat (ollama_build e (sent_body (inflight s ! i))) = Throws err) \<or>
             (\<exists>status txt. chat (ollama_build e (sent_body (inflight s ! i))) = Not_ok status txt)"
  shows "(\<exists>msg s'. route e create chat (inflight s ! i) = Inl msg \<and>
            step e (Respond i create chat) s = Some s' \<and>
            history s' = history s \<and> error s' = Some (res_text msg) \<and> \<not> isRunning s') \<and>
         (\<forall>err. \<exists>s'. step e (Reject i err) s = Some s' \<and>
            history s' = history s \<and>
            error s' = Some (nullish err (str ''Error desconocido'')) \<and> \<not> isRunning s')"
  using assms
  by (auto simp: route_def POST_openai_def POST_llama_def step_def nextTurn_settle_def
      nextTurn_caught_def effects_def Let_def nullish_def split: speaker.splits)

lemma start_initial:
  "startConversation initial = initial\<lparr>isRunning := True, showExport := False, loading := True, error := None,
      inflight := [\<lparr>endpoint = openai, sent_history = [], sent_topic = topic initial\<rparr>]\<rparr>"
  by (simp add: startConversation_def initial_def nextTurn_begin_def nextTurn_call_def Let_def)

theorem failed_turn_keeps_history_witness:
  "0 < length (inflight (startConversation initial)) \<and>
   endpoint (inflight (startConversation initial) ! 0) = openai \<and>
   (\<exists>s'. step env0 (Respond 0 (\<lambda>_. Inl (Some (str ''boom''))) (\<lambda>_. Ok_data None))
            (startConversation initial) = Some s' \<and>
         history s' = [] \<and> error s' = Some (res_text (str ''boom'')) \<and> \<not> isRunning s')"
proof -
  let ?s = "startConversation initial"
  let ?create = "\<lambda>_ :: openai_request. Inl (Some (str ''boom'')) :: thrown + jsstring option"
  let ?chat = "\<lambda>_ :: ollama_request. Ok_data None"
  have h1: "0 < length (inflight ?s)"
    by (simp add: start_initial)
  have ep: "endpoint (inflight ?s ! 0) = openai"
    by (simp add: start_initial)
  have h2: "case endpoint (inflight ?s ! 0) of
           openai \<Rightarrow> (\<exists>err. ?create (openai_build env0 (sent_body (inflight ?s ! 0))) = Inl err)
         | llama \<Rightarrow>
             (\<exists>err. ?chat (ollama_build env0 (sent_body (inflight ?s ! 0))) = Throws err) \<or>
             (\<exists>status txt. ?chat (ollama_build env0 (sent_body (inflight ?s ! 0))) = Not_ok status txt)"
    by (simp add: ep)
  have r: "route env0 ?create ?chat (inflight ?s ! 0) = Inl (str ''boom'')"
    by (simp add: route_def ep POST_openai_def nullish_def)
  have h0: "history ?s = []"
    unfolding start_initial by (simp add: initial_def)
  from failed_turn_keeps_history [where e = env0, OF h1 h2] r h0 h1 ep show ?thesis
    by auto
qed

text \<open>
  C10. In every state the component can reach, the round count is the length of the
  history.
\<close>

theorem roundCount_is_history_length:
  "reachable e s \<Longrightarrow> roundCount s = length (history s)"
proof (induction rule: reachable.induct)
  case at_start
  show ?case by (simp add: initial_def)
next
  case (after_step s ev s')
  then show ?case
    by (cases ev)
      (auto simp: step_def effects_def Let_def startConversation_def reset_def
         nextTurn_begin_def stopDebate_def nextTurn_settle_def nextTurn_caught_def
         nextTurn_resolved_def split: if_splits sum.splits)
qed

theorem roundCount_is_history_length_witness:
  "\<exists>s. run env0 [Click_start, answers] initial = Some s \<and> reachable env0 s \<and>
       roundCount s = 1 \<and> length (history s) = 1"
proof -
  have "map_option roundCount (run env0 [Click_start, answers] initial) = Some 1"
    by code_simp
  then obtain s where s: "run env0 [Click_start, answers] initial = Some s" and one: "roundCount s = 1"
    by auto
  have r: "reachable env0 s"
    using reachable.at_start s by (rule run_reachable)
  from roundCount_is_history_length [OF r] one s r show ?thesis by simp
qed

text \<open>
  C1 asks that the speakers of the history alternate, the hosted model first. The run
  below ends in a history of two messages of the local model. A first debate is
  started, gets one message and is stopped, so that the turn is with the local model;
  it is started again: \<open>startConversation\<close> resets the turn and calls \<open>nextTurn\<close>,
  whose closure still holds the turn and the history of the render before the reset,
  and the call goes to the local model. Its message is appended to the emptied history
  and the reset turn is flipped to the local model, which then speaks again.
\<close>

theorem restart_repeats_speaker:
  "\<exists>s. run env0 [Click_start, answers, Click_stop, Click_start, answers, Timer, answers] initial = Some s \<and>
       reachable env0 s \<and> map speaker (history s) = [llama, llama]"
proof -
  have "map_option (\<lambda>s. map speaker (history s))
          (run env0 [Click_start, answers, Click_stop, Click_start, answers, Timer, answers] initial) =
        Some [llama, llama]"
    by code_simp
  then obtain s where s: "run env0 [Click_start, answers, Click_stop, Click_start, answers, Timer, answers] initial = Some s"
    and h: "map speaker (history s) = [llama, llama]"
    by auto
  have "reachable env0 s"
    using reachable.at_start s by (rule run_reachable)
  with s h show ?thesis by simp
qed

text \<open>
  C2 asks that the round count never exceeds \<open>maxRounds\<close>. Enter in the topic field
  calls \<open>startConversation\<close> also while a turn is loading (the start button is
  disabled then). Eleven presses before the first answer, with the history still
  empty, leave eleven calls waiting; each answer is appended and counted, and the
  count ends at 11.
\<close>

theorem enter_while_loading_passes_maxRounds:
  "\<exists>s. run env0 (replicate 11 Press_enter @ replicate 11 answers) initial = Some s \<and>
       reachable env0 s \<and> roundCount s = 11 \<and> maxRounds < roundCount s"
proof -
  have "map_option roundCount (run env0 (replicate 11 Press_enter @ replicate 11 answers) initial) = Some 11"
    by code_simp
  then obtain s where s: "run env0 (replicate 11 Press_enter @ replicate 11 answers) initial = Some s" and h: "roundCount s = 11"
    by auto
  have "reachable env0 s"
    using reachable.at_start s by (rule run_reachable)
  with s h show ?thesis by (simp add: maxRounds_def)
qed

section \<open>Properties of the structured export\<close>

lemma cases16: "(d::nat) < 16 \<Longrightarrow> d \<in> {0, 1, 2, 3, 4, 5, 6, 7, 8, 9, 10, 11, 12, 13, 14, 15}"
  by (simp add: insert_iff) arith

lemma hexval_hexdigit: "d < 16 \<Longrightarrow> hexval (hexdigit d) = Some d"
  by (drule cases16, elim insertE emptyE) (simp_all add: hexval_def hexdigit_def)

lemma nibbles:
  assumes "(n::nat) < 65536"
  shows "4096 * (n div 4096 mod 16) + 256 * (n div 256 mod 16) + 16 * (n div 16 mod 16) + n mod 16 = n"
proof -
  have a: "n div 4096 mod 16 = n div 4096"
    using assms by (simp add: less_mult_imp_div_less)
  have b: "n div 256 = 16 * (n div 4096) + n div 256 mod 16"
    using mult_div_mod_eq [of 16 "n div 256"] by (simp add: div_mult2_eq [symmetric])
  have c: "n div 16 = 16 * (n div 256) + n div 16 mod 16"
    using mult_div_mod_eq [of 16 "n div 16"] by (simp add: div_mult2_eq [symmetric])
  have d: "n = 16 * (n div 16) + n mod 16"
    by simp
  from a b c d show ?thesis by linarith
qed

lemma hex4_escape:
  "hex4 (hexdigit (unat c div 4096 mod 16)) (hexdigit (unat c div 256 mod 16))
        (hexdigit (unat c div 16 mod 16)) (hexdigit (unat c mod 16)) = Some (c :: 16 word)"
proof -
  define n where "n = unat c"
  have "n < 65536" using unsigned_less [of c, where ?'a = nat] by (simp add: n_def)
  then have "4096 * (n div 4096 mod 16) + 256 * (n div 256 mod 16) + 16 * (n div 16 mod 16) + n mod 16 = n"
    by (rule nibbles)
  then have "of_nat (4096 * (n div 4096 mod 16) + 256 * (n div 256 mod 16) + 16 * (n div 16 mod 16) + n mod 16) = c"
    by (simp only: n_def of_nat_unat ucast_id)
  then show ?thesis
    unfolding n_def [symmetric]
    by (simp only: hex4_def hexval_hexdigit mod_less_divisor zero_less_numeral prod.case option.case)
qed


declare parse_chars.simps [simp del]

lemma parse_chars_closing: "parse_chars (0x22 # r) = Some ([], r)"
  by (simp add: parse_chars.simps)

lemma parse_chars_escape_unit:
  "parse_chars (escape_unit c @ r) = cons_fst c (parse_chars r)"
  by (simp add: parse_chars.simps escape_unit_def unicode_escape_def hex4_escape unescape_def)

lemma parse_chars_surrogate:
  "is_lead c \<or> is_trail c \<Longrightarrow> parse_chars (c # r) = cons_fst c (parse_chars r)"
  by (auto simp: parse_chars.simps is_lead_def is_trail_def word_le_nat_alt word_less_nat_alt)

lemma parse_chars_quote_units:
  "parse_chars (quote_units s @ 0x22 # r) = Some (s, r)"
proof (induction s rule: quote_units.induct)
  case 1
  show ?case by (simp add: parse_chars_closing)
next
  case (2 c)
  show ?case by (simp add: parse_chars_escape_unit parse_chars_closing cons_fst_def)
next
  case (3 c d ds)
  show ?case
  proof (cases "is_lead c \<and> is_trail d")
    case True
    with 3 show ?thesis by (simp add: parse_chars_surrogate cons_fst_def)
  next
    case False
    then have "quote_units (c # d # ds) = escape_unit c @ quote_units (d # ds)"
      by auto
    with 3(2) [OF False] show ?thesis
      by (simp add: parse_chars_escape_unit cons_fst_def)
  qed
qed

lemma skip_ws_simps:
  "skip_ws [] = []"
  "skip_ws (0x20 # cs) = skip_ws cs"
  "skip_ws (0x0A # cs) = skip_ws cs"
  "skip_ws (0x22 # cs) = 0x22 # cs"
  "skip_ws (0x2C # cs) = 0x2C # cs"
  "skip_ws (0x3A # cs) = 0x3A # cs"
  "skip_ws (0x5B # cs) = 0x5B # cs"
  "skip_ws (0x5D # cs) = 0x5D # cs"
  "skip_ws (0x7B # cs) = 0x7B # cs"
  "skip_ws (0x7D # cs) = 0x7D # cs"
  by (simp_all add: skip_ws_def is_json_ws_def)

lemma parse_value_skip:
  "parse_value f (0x20 # cs) = parse_value f cs"
  "parse_value f (0x0A # cs) = parse_value f cs"
  by (cases f; simp add: skip_ws_simps)+

lemma parse_elements_skip:
  "parse_elements f (0x20 # cs) = parse_elements f cs"
  "parse_elements f (0x0A # cs) = parse_elements f cs"
  by (cases f; simp add: parse_value_skip)+

lemma parse_members_skip:
  "parse_members f (0x20 # cs) = parse_members f cs"
  "parse_members f (0x0A # cs) = parse_members f cs"
  by (cases f; simp add: skip_ws_simps)+

lemma parse_value_string:
  "parse_value (Suc n) (json_quote s @ r) = Some (JString s, r)"
  by (simp add: json_quote_def skip_ws_simps parse_chars_quote_units)

lemma parse_members_step:
  "parse_members (Suc n) (json_quote k @ 0x3A # cs) =
     (case parse_value n cs of
        None \<Rightarrow> None
      | Some (v, r3) \<Rightarrow>
          (case skip_ws r3 of
             [] \<Rightarrow> None
           | d # r4 \<Rightarrow>
               if d = 0x2C then cons_fst (k, v) (parse_members n r4)
               else if d = 0x7D then Some ([(k, v)], r4)
               else None))"
  by (simp add: json_quote_def skip_ws_simps parse_chars_quote_units)

lemma parse_elements_step:
  "parse_elements (Suc n) cs =
     (case parse_value n cs of
        None \<Rightarrow> None
      | Some (v, r) \<Rightarrow>
          (case skip_ws r of
             [] \<Rightarrow> None
           | c # r' \<Rightarrow>
               if c = 0x2C then cons_fst v (parse_elements n r')
               else if c = 0x5D then Some ([v], r')
               else None))"
  by simp

lemma elements_map: "elements ind vs = map (stringify ind) vs"
  by (induction vs) simp_all

text \<open>The text of one message, four spaces deep.\<close>

lemma msg_text:
  "stringify (gap @ gap) (msg_value m) =
     [0x7B, 0x0A, 0x20, 0x20, 0x20, 0x20, 0x20, 0x20] @ json_quote (str ''speaker'') @ [0x3A, 0x20] @
     json_quote (speaker_label (speaker m)) @ [0x2C, 0x0A, 0x20, 0x20, 0x20, 0x20, 0x20, 0x20] @
     json_quote (str ''content'') @ [0x3A, 0x20] @ json_quote (content m) @
     [0x0A, 0x20, 0x20, 0x20, 0x20, 0x7D]"
  by (simp add: msg_value_def gap_def) (simp add: str_def)


lemma json_quote_Cons: "json_quote s @ r = 0x22 # quote_units s @ 0x22 # r"
  by (simp add: json_quote_def)

lemma parse_msg:
  "parse_value (Suc (Suc (Suc (Suc n)))) (stringify (gap @ gap) (msg_value m) @ r) =
     Some (msg_value m, r)"
proof -
  let ?k1 = "str ''speaker''" and ?k2 = "str ''content''"
  let ?v1 = "speaker_label (speaker m)" and ?v2 = "content m"
  let ?t2 = "json_quote ?k2 @ 0x3A # 0x20 # json_quote ?v2 @ 0x0A # 0x20 # 0x20 # 0x20 # 0x20 # 0x7D # r"
  let ?t1 = "json_quote ?k1 @ 0x3A # 0x20 # json_quote ?v1 @
               0x2C # 0x0A # 0x20 # 0x20 # 0x20 # 0x20 # 0x20 # 0x20 # ?t2"
  have m2: "parse_members (Suc (Suc n)) ?t2 = Some ([(?k2, JString ?v2)], r)"
    by (simp only: parse_members_step parse_value_skip parse_value_string)
      (simp add: skip_ws_simps)
  have m1: "parse_members (Suc (Suc (Suc n))) ?t1 = Some ([(?k1, JString ?v1), (?k2, JString ?v2)], r)"
    by (simp only: parse_members_step parse_value_skip parse_value_string)
      (simp add: skip_ws_simps parse_members_skip m2 cons_fst_def del: parse_members.simps)
  have "stringify (gap @ gap) (msg_value m) @ r = 0x7B # 0x0A # 0x20 # 0x20 # 0x20 # 0x20 # 0x20 # 0x20 # ?t1"
    by (simp add: msg_text)
  moreover have "parse_value (Suc (Suc (Suc (Suc n)))) (0x7B # 0x0A # 0x20 # 0x20 # 0x20 # 0x20 # 0x20 # 0x20 # ?t1) =
      Some (JObject [(?k1, JString ?v1), (?k2, JString ?v2)], r)"
    by (simp add: skip_ws_simps json_quote_Cons [of ?k1] del: parse_members.simps)
      (simp add: json_quote_Cons [of ?k1, symmetric] parse_members_skip m1 del: parse_members.simps)
  ultimately show ?thesis
    by (simp add: msg_value_def)
qed


lemma parse_elements_msgs:
  "h \<noteq> [] \<Longrightarrow> length h + 4 \<le> f \<Longrightarrow>
   parse_elements f
     (join [0x2C, 0x0A, 0x20, 0x20, 0x20, 0x20] (map (\<lambda>m. stringify (gap @ gap) (msg_value m)) h) @
      0x0A # 0x20 # 0x20 # 0x5D # r) =
   Some (map msg_value h, r)"
proof (induction h arbitrary: f)
  case Nil
  then show ?case by simp
next
  case (Cons m hs)
  define n where "n = f - 5"
  from Cons.prems(2) have f: "f = Suc (Suc (Suc (Suc (Suc n))))" and n: "length hs \<le> n"
    by (simp_all add: n_def)
  show ?case
  proof (cases hs)
    case Nil
    then show ?thesis
      unfolding f
      by (subst parse_elements_step)
        (simp add: parse_msg skip_ws_simps del: parse_value.simps parse_elements.simps)
  next
    case (Cons m' hs')
    then have ne: "hs \<noteq> []" by simp
    have le: "length hs + 4 \<le> Suc (Suc (Suc (Suc n)))" using n by simp
    have ih: "parse_elements (Suc (Suc (Suc (Suc n))))
       (join [0x2C, 0x0A, 0x20, 0x20, 0x20, 0x20] (map (\<lambda>m. stringify (gap @ gap) (msg_value m)) hs) @
        0x0A # 0x20 # 0x20 # 0x5D # r) = Some (map msg_value hs, r)"
      using ne le by (rule Cons.IH)
    show ?thesis
      unfolding f Cons
      by (subst parse_elements_step)
        (simp add: parse_msg skip_ws_simps parse_elements_skip ih [unfolded Cons list.map]
           cons_fst_def del: parse_value.simps parse_elements.simps)
  qed
qed


lemma join_Cons: "join sep (x # xs) = x @ (if xs = [] then [] else sep @ join sep xs)"
  by (cases xs) simp_all

lemma parse_value_array_start:
  "skip_ws cs = 0x7B # r' \<Longrightarrow>
   parse_value (Suc n) (0x5B # cs) =
     (case parse_elements n cs of None \<Rightarrow> None | Some (vs, r'') \<Rightarrow> Some (JArray vs, r''))"
  by (simp add: skip_ws_simps)

lemma parse_value_object_start:
  "skip_ws cs = 0x22 # r' \<Longrightarrow>
   parse_value (Suc n) (0x7B # cs) =
     (case parse_members n cs of None \<Rightarrow> None | Some (ms, r'') \<Rightarrow> Some (JObject ms, r''))"
  by (simp add: skip_ws_simps)

text \<open>The text of the history, two spaces deep.\<close>

lemma history_text:
  "stringify gap (JArray (map msg_value h)) =
     (if h = [] then [0x5B, 0x5D]
      else [0x5B, 0x0A, 0x20, 0x20, 0x20, 0x20] @
           join [0x2C, 0x0A, 0x20, 0x20, 0x20, 0x20]
             (map (\<lambda>m. stringify (gap @ gap) (msg_value m)) h) @
           [0x0A, 0x20, 0x20, 0x5D])"
  by (simp add: elements_map comp_def) (simp add: gap_def str_def)

lemma parse_history:
  assumes "length h + 5 \<le> f"
  shows "parse_value f (stringify gap (JArray (map msg_value h)) @ r) =
           Some (JArray (map msg_value h), r)"
proof -
  define n where "n = f - 1"
  from assms have f: "f = Suc n" and n: "length h + 4 \<le> n"
    by (simp_all add: n_def)
  show ?thesis
  proof (cases h)
    case Nil
    then show ?thesis
      by (simp add: f skip_ws_simps str_def)
  next
    case (Cons m hs)
    let ?body = "join [0x2C, 0x0A, 0x20, 0x20, 0x20, 0x20]
                   (map (\<lambda>m. stringify (gap @ gap) (msg_value m)) h) @ 0x0A # 0x20 # 0x20 # 0x5D # r"
    have ne: "h \<noteq> []" using Cons by simp
    have el: "parse_elements n ?body = Some (map msg_value h, r)"
      using ne n by (rule parse_elements_msgs)
    have "\<exists>r'. ?body = 0x7B # r'"
      unfolding Cons by (simp add: join_Cons msg_text)
    then obtain r' where b: "?body = 0x7B # r'" ..
    have sk: "skip_ws (0x0A # 0x20 # 0x20 # 0x20 # 0x20 # ?body) = 0x7B # r'"
      by (simp only: skip_ws_simps b)
    have "parse_value (Suc n) (0x5B # 0x0A # 0x20 # 0x20 # 0x20 # 0x20 # ?body) =
            Some (JArray (map msg_value h), r)"
      by (subst parse_value_array_start [OF sk])
        (simp only: parse_elements_skip el option.case prod.case)
    then show ?thesis
      unfolding f history_text using ne by (simp del: parse_value.simps)
  qed
qed

lemma export_text:
  "stringify [] (snapshot t h) =
     [0x7B, 0x0A, 0x20, 0x20] @ json_quote (str ''topic'') @ [0x3A, 0x20] @ json_quote t @
     [0x2C, 0x0A, 0x20, 0x20] @ json_quote (str ''history'') @ [0x3A, 0x20] @
     stringify gap (JArray (map msg_value h)) @ [0x0A, 0x7D]"
  by (simp add: snapshot_def del: stringify.simps(4)) (simp add: gap_def str_def)


lemma parse_export:
  assumes "length h + 8 \<le> f"
  shows "parse_value f (stringify [] (snapshot t h)) = Some (snapshot t h, [])"
proof -
  define n where "n = f - 3"
  from assms have f: "f = Suc (Suc (Suc n))" and n: "length h + 5 \<le> n"
    by (simp_all add: n_def)
  let ?H = "stringify gap (JArray (map msg_value h))"
  let ?t2 = "json_quote (str ''history'') @ 0x3A # 0x20 # ?H @ [0x0A, 0x7D]"
  let ?t1 = "json_quote (str ''topic'') @ 0x3A # 0x20 # json_quote t @ 0x2C # 0x0A # 0x20 # 0x20 # ?t2"
  have hist: "parse_value n (?H @ [0x0A, 0x7D]) = Some (JArray (map msg_value h), [0x0A, 0x7D])"
    using n by (rule parse_history)
  have m2: "parse_members (Suc n) ?t2 = Some ([(str ''history'', JArray (map msg_value h))], [])"
    by (subst parse_members_step) (simp only: parse_value_skip hist, simp add: skip_ws_simps)
  from n obtain k where k: "n = Suc k"
    by (cases n) simp_all
  have m1: "parse_members (Suc (Suc n)) ?t1 =
              Some ([(str ''topic'', JString t), (str ''history'', JArray (map msg_value h))], [])"
    by (subst parse_members_step)
      (simp only: parse_value_skip, simp only: k parse_value_string,
       simp add: skip_ws_simps parse_members_skip m2 [unfolded k] cons_fst_def
         del: parse_members.simps stringify.simps)
  have sk: "skip_ws (0x0A # 0x20 # 0x20 # ?t1) = 0x22 # tl (json_quote (str ''topic'')) @ 0x3A # 0x20 # json_quote t @ 0x2C # 0x0A # 0x20 # 0x20 # ?t2"
    by (simp add: skip_ws_simps json_quote_def del: stringify.simps)
  have "parse_value (Suc (Suc (Suc n))) (0x7B # 0x0A # 0x20 # 0x20 # ?t1) = Some (snapshot t h, [])"
    by (subst parse_value_object_start [OF sk])
      (simp only: parse_members_skip m1, simp add: snapshot_def)
  then show ?thesis
    unfolding f export_text by (simp del: parse_value.simps stringify.simps)
qed

lemma length_join: "sep \<noteq> [] \<Longrightarrow> length xs \<le> Suc (length (join sep xs))"
  by (induction sep xs rule: join.induct) (auto simp: Suc_le_eq neq_Nil_conv)

lemma length_export: "length h + 8 \<le> length (stringify [] (snapshot t h))"
proof -
  have "length h \<le> length (stringify gap (JArray (map msg_value h))) "
    using length_join [of "[0x2C, 0x0A, 0x20, 0x20, 0x20, 0x20]" "map (\<lambda>m. stringify (gap @ gap) (msg_value m)) h"]
    unfolding history_text by simp
  then show ?thesis
    unfolding export_text by (simp add: json_quote_def del: stringify.simps)
qed

lemma msg_value_inj: "msg_value m = msg_value m' \<longleftrightarrow> m = m'"
proof -
  have "speaker_label a = speaker_label b \<longleftrightarrow> a = b" for a b
    by (cases a; cases b) (simp_all add: str_def)
  then show ?thesis
    by (auto simp: msg_value_def)
qed

lemma snapshot_inj: "snapshot t h = snapshot t' h' \<longleftrightarrow> t = t' \<and> h = h'"
proof -
  have "inj msg_value"
    by (rule injI) (simp add: msg_value_inj)
  then show ?thesis
    by (auto simp: snapshot_def inj_map_eq_map)
qed

text \<open>
  C4. Reading the text of the structured export back gives the object
  \<open>{ topic, history }\<close> that was written, for every topic and every history; and that
  object determines the topic and the history.
\<close>

theorem export_round_trip:
  "JSON_parse (exportConversation Json s) = Some (snapshot (topic s) (history s)) \<and>
   (snapshot t h = snapshot t' h' \<longleftrightarrow> t = t' \<and> h = h')"
  using parse_export [OF length_export, where h = "history s" and t = "topic s"]
  by (simp add: JSON_parse_def exportConversation_def skip_ws_simps snapshot_inj
      del: stringify.simps)

end
